theory Spec2Isabelle
  imports Main "HOL-Library.Word"
begin

section \<open>The failure budget of toaster.c\<close>

text \<open>
  The C type \<^verbatim>\<open>int\<close> is a 32-bit word read in two's complement by \<open>sint\<close>.
  ISO C leaves signed overflow undefined; the model takes the two's-complement result,
  so that \<^verbatim>\<open>--gcnt\<close> at the least value gives the greatest one and \<^verbatim>\<open>++i\<close>
  at the greatest value gives the least one.

  The two static variables \<^verbatim>\<open>gcnt\<close> and \<^verbatim>\<open>gset\<close> are the first two fields of the
  state; the third field stands for everything else a function under test can read
  and write.
\<close>

type_synonym int32 = "32 word"

record 'w state =
  gcnt :: int32
  gset :: int32
  world :: 'w

text \<open>
  \<^verbatim>\<open>int toaster_check(void) { if(gset && --gcnt < 0) { return -1; } return 0; }\<close>
  The decrement is the right operand of \<^verbatim>\<open>&&\<close>: it happens only when \<^verbatim>\<open>gset\<close> is not 0.
\<close>

definition toaster_check :: "'w state \<Rightarrow> int32 \<times> 'w state" where
  "toaster_check s =
     (if gset s \<noteq> 0 then
        (let s' = s\<lparr>gcnt := gcnt s - 1\<rparr>
         in if sint (gcnt s') < 0 then (- 1, s') else (0, s'))
      else (0, s))"

text \<open>\<^verbatim>\<open>void toaster_set(int cnt) { gcnt = cnt; gset = 1; }\<close>\<close>

definition toaster_set :: "int32 \<Rightarrow> 'w state \<Rightarrow> 'w state" where
  "toaster_set cnt s = s\<lparr>gcnt := cnt, gset := 1\<rparr>"

text \<open>\<^verbatim>\<open>int toaster_get(void) { if(gset) { return gcnt; } return -1; }\<close>\<close>

definition toaster_get :: "'w state \<Rightarrow> int32" where
  "toaster_get s = (if gset s \<noteq> 0 then gcnt s else - 1)"

text \<open>\<^verbatim>\<open>void toaster_end(void) { gcnt = 0; gset = 0; }\<close>\<close>

definition toaster_end :: "'w state \<Rightarrow> 'w state" where
  "toaster_end s = s\<lparr>gcnt := 0, gset := 0\<rparr>"

text \<open>
  A function under test, \<^verbatim>\<open>int (*test)(void)\<close>: it reads and writes the whole state
  (the budget through the four functions above, which are all public) and returns an
  \<^verbatim>\<open>int\<close>, or it does not return, which is the value \<open>None\<close>.
\<close>

type_synonym 'w test = "'w state \<Rightarrow> (int32 \<times> 'w state) option"


text \<open>
  The loop of \<^verbatim>\<open>toaster_run_range\<close>:
  \<^verbatim>\<open>for(i = min; i <= max && err != 0; ++i) { TOASTER_LOG("test count: %d", i); toaster_set(i); err = test(); }\<close>
  One call of \<open>run_loop\<close> is one evaluation of the loop condition with the current
  \<open>i\<close> and \<open>err\<close>. The last argument records the attempts made so far, one pair
  (the \<open>i\<close> of the logged line, the value \<open>test\<close> returned) per iteration; the C code
  keeps no such list, it is what the claims about the number and order of invocations
  are stated on. The loop need not end, so the function is partial.
\<close>

type_synonym attempt = "int32 \<times> int32"

partial_function (option) run_loop ::
  "'w test \<Rightarrow> int32 \<Rightarrow> int32 \<Rightarrow> int32 \<Rightarrow> 'w state \<Rightarrow> attempt list
     \<Rightarrow> (int32 \<times> 'w state \<times> attempt list) option" where
  "run_loop test mx i err s tr =
     (if sint i \<le> sint mx \<and> err \<noteq> 0 then
        (case test (toaster_set i s) of
           None \<Rightarrow> None
         | Some (e, s') \<Rightarrow> run_loop test mx (i + 1) e s' (tr @ [(i, e)]))
      else Some (err, s, tr))"

declare run_loop.simps [code]

text \<open>
  \<^verbatim>\<open>int toaster_run_range(int min, int max, int (*test)(void))\<close>:
  \<^verbatim>\<open>int err = -1;\<close>, the loop, \<^verbatim>\<open>toaster_end(); return err;\<close>.
  The result is the value returned, the state left behind and the attempts made.
  The parameters \<^verbatim>\<open>min\<close> and \<^verbatim>\<open>max\<close> are written \<open>mn\<close> and \<open>mx\<close>.
\<close>

definition toaster_run_range ::
  "int32 \<Rightarrow> int32 \<Rightarrow> 'w test \<Rightarrow> 'w state \<Rightarrow> (int32 \<times> 'w state \<times> attempt list) option" where
  "toaster_run_range mn mx test s =
     (case run_loop test mx mn (- 1) s [] of
        None \<Rightarrow> None
      | Some (err, s', tr) \<Rightarrow> Some (err, toaster_end s', tr))"

text \<open>
  \<^verbatim>\<open>int toaster_run_max(int max, int (*test)(void)) { return toaster_run_range(0, max, test); }\<close>
\<close>

definition toaster_run_max ::
  "int32 \<Rightarrow> 'w test \<Rightarrow> 'w state \<Rightarrow> (int32 \<times> 'w state \<times> attempt list) option" where
  "toaster_run_max mx test s = toaster_run_range 0 mx test s"

text \<open>
  \<open>toaster_checks k\<close> is \<open>k\<close> calls of \<^verbatim>\<open>toaster_check\<close> one after the other with
  nothing in between; it gives the values returned, in call order, and the final state.
\<close>

primrec toaster_checks :: "nat \<Rightarrow> 'w state \<Rightarrow> int32 list \<times> 'w state" where
  "toaster_checks 0 s = ([], s)"
| "toaster_checks (Suc k) s =
     (case toaster_check s of (r, s1) \<Rightarrow>
        (case toaster_checks k s1 of (rs, s2) \<Rightarrow> (r # rs, s2)))"

section \<open>Functions under test\<close>

text \<open>
  The \<^verbatim>\<open>TEST(err, expr)\<close> macro of toaster.h, compiled with \<^verbatim>\<open>-DTOASTER\<close> as the Makefile
  does:
  \<^verbatim>\<open>if(0 != toaster_check()) { if(!err) { err = -1; } goto CHECK(err); }
  else if(!(expr)) { if(!err) { err = -1; } goto CHECK(err); } else { }\<close>
  The checked expression is a function of the world: it gives its truth value and the
  world it leaves. The result of \<open>TEST\<close> is whether control goes on to the next
  statement (\<open>True\<close>) or jumps to the \<^verbatim>\<open>CHECK(err)\<close> label (\<open>False\<close>), the value of
  \<^verbatim>\<open>err\<close> and the state. The expression is not evaluated when the failure is injected.
\<close>

type_synonym 'w expr = "'w \<Rightarrow> bool \<times> 'w"

definition TEST :: "'w expr \<Rightarrow> int32 \<Rightarrow> 'w state \<Rightarrow> bool \<times> int32 \<times> 'w state" where
  "TEST expr err s =
     (case toaster_check s of (r, s1) \<Rightarrow>
        if r \<noteq> 0 then (False, (if err = 0 then - 1 else err), s1)
        else (case expr (world s1) of (b, w) \<Rightarrow>
                if \<not> b then (False, (if err = 0 then - 1 else err), s1\<lparr>world := w\<rparr>)
                else (True, err, s1\<lparr>world := w\<rparr>)))"

text \<open>
  The \<^verbatim>\<open>TEST\<close> statements of a function body in program order, up to the
  \<^verbatim>\<open>CHECK(err)\<close> label: the first one that jumps ends the sequence.
\<close>

fun test_body :: "'w expr list \<Rightarrow> int32 \<Rightarrow> 'w state \<Rightarrow> int32 \<times> 'w state" where
  "test_body [] err s = (err, s)"
| "test_body (e # es) err s =
     (case TEST e err s of (go_on, err', s') \<Rightarrow>
        if go_on then test_body es err' s' else (err', s'))"

text \<open>
  A function written in the single-exit style of \<^verbatim>\<open>unix_sock_create_and_bind\<close>:
  \<^verbatim>\<open>int err = 0;\<close>, a sequence of \<^verbatim>\<open>TEST\<close> statements, the \<^verbatim>\<open>CHECK(err)\<close> label, the
  cleanup code and \<^verbatim>\<open>return err;\<close>. The checked expressions and the cleanup act on
  the world only: they do not call the toaster functions.
\<close>

definition test_function :: "'w expr list \<Rightarrow> ('w \<Rightarrow> 'w) \<Rightarrow> 'w test" where
  "test_function es cleanup s =
     (case test_body es 0 s of (err, s') \<Rightarrow> Some (err, s'\<lparr>world := cleanup (world s')\<rparr>))"

text \<open>
  \<^verbatim>\<open>toaster_check\<close> itself has the type \<^verbatim>\<open>int (*)(void)\<close> and can be passed as the
  function under test.
\<close>

definition check_test :: "'w test" where
  "check_test s = Some (toaster_check s)"




text \<open>
  The state at process start: both statics are zero-initialised. The rest of the
  world is empty here.
\<close>

definition init_state :: "unit state" where
  "init_state = \<lparr>gcnt = 0, gset = 0, world = ()\<rparr>"


section \<open>Functions under test as trees of calls on the budget\<close>

text \<open>
  The functions of test.c reach the budget in three places: the \<^verbatim>\<open>TEST\<close> macro, the
  mocks of \<^verbatim>\<open>bind\<close> and \<^verbatim>\<open>socket\<close>, and the functions they call, which do the same.
  All of it comes down to calls of \<^verbatim>\<open>toaster_check\<close> between code that does not
  touch the budget. The other three functions of toaster.h that reach the budget,
  \<^verbatim>\<open>toaster_get\<close>, \<^verbatim>\<open>toaster_set\<close> and \<^verbatim>\<open>toaster_end\<close>, are as public. A function
  under test, as long as it returns, is then a tree:
  \<^item> \<open>Return v\<close> is \<^verbatim>\<open>return v;\<close>
  \<^item> \<open>Act u c\<close> is code that does not touch the budget: it takes the world \<open>w\<close> to
    \<open>u w\<close> and goes on with \<open>c w\<close>, so what follows may depend on the world;
  \<^item> \<open>Check a b\<close> is a call of \<^verbatim>\<open>toaster_check\<close>, going on with \<open>a\<close> when it
    returns 0 and with \<open>b\<close> when it does not (it returns 0 or -1, nothing else);
  \<^item> \<open>Get c\<close> is a call of \<^verbatim>\<open>toaster_get\<close>, going on with \<open>c\<close> of the value read;
  \<^item> \<open>Arm n p\<close> is \<^verbatim>\<open>toaster_set(n)\<close> and \<open>End p\<close> is \<^verbatim>\<open>toaster_end()\<close>, going on
    with \<open>p\<close>.
  \<open>exec\<close> runs the tree on the state with the real functions; it gives the value
  returned, the state left, and the calls made during the run, in call order:
  \<open>Checked r\<close> for a call of \<^verbatim>\<open>toaster_check\<close> that returned \<open>r\<close>, \<open>Got v\<close> for a
  call of \<^verbatim>\<open>toaster_get\<close> that returned \<open>v\<close>, \<open>Armed n\<close> for \<^verbatim>\<open>toaster_set(n)\<close> and
  \<open>Ended\<close> for \<^verbatim>\<open>toaster_end()\<close>.
\<close>

datatype 'w prog =
    Return int32
  | Act "'w \<Rightarrow> 'w" "'w \<Rightarrow> 'w prog"
  | Check "'w prog" "'w prog"
  | Get "int32 \<Rightarrow> 'w prog"
  | Arm int32 "'w prog"
  | End "'w prog"

datatype event = Checked int32 | Got int32 | Armed int32 | Ended

primrec exec :: "'w prog \<Rightarrow> 'w state \<Rightarrow> int32 \<times> 'w state \<times> event list" where
  "exec (Return v) s = (v, s, [])"
| "exec (Act u c) s = exec (c (world s)) (s\<lparr>world := u (world s)\<rparr>)"
| "exec (Check a b) s =
     (case toaster_check s of (r, s1) \<Rightarrow>
        if r = 0 then (case exec a s1 of (v, s2, evs) \<Rightarrow> (v, s2, Checked r # evs))
        else (case exec b s1 of (v, s2, evs) \<Rightarrow> (v, s2, Checked r # evs)))"
| "exec (Get c) s =
     (case exec (c (toaster_get s)) s of (v, s2, evs) \<Rightarrow> (v, s2, Got (toaster_get s) # evs))"
| "exec (Arm n p) s =
     (case exec p (toaster_set n s) of (v, s2, evs) \<Rightarrow> (v, s2, Armed n # evs))"
| "exec (End p) s =
     (case exec p (toaster_end s) of (v, s2, evs) \<Rightarrow> (v, s2, Ended # evs))"

text \<open>The tree as a function under test.\<close>

definition prog_test :: "'w prog \<Rightarrow> 'w test" where
  "prog_test p s = (case exec p s of (v, s', evs) \<Rightarrow> Some (v, s'))"

text \<open>A call: run \<open>p\<close>, then go on with what \<open>k\<close> makes of the value it returned.\<close>

primrec then_prog :: "'w prog \<Rightarrow> (int32 \<Rightarrow> 'w prog) \<Rightarrow> 'w prog" where
  "then_prog (Return v) k = k v"
| "then_prog (Act u c) k = Act u (\<lambda>w. then_prog (c w) k)"
| "then_prog (Check a b) k = Check (then_prog a k) (then_prog b k)"
| "then_prog (Get c) k = Get (\<lambda>v. then_prog (c v) k)"
| "then_prog (Arm n p) k = Arm n (then_prog p k)"
| "then_prog (End p) k = End (then_prog p k)"


text \<open>
  The \<^verbatim>\<open>TEST(err, expr)\<close> macro again, now with an expression that may itself call
  \<^verbatim>\<open>toaster_check\<close> (a mock, or a function with \<^verbatim>\<open>TEST\<close> statements of its own): the
  expression is a tree that returns its C value. \<open>on_fail\<close> is what the jump to
  \<^verbatim>\<open>CHECK(err)\<close> leads to, with \<^verbatim>\<open>err\<close> set, and \<open>next\<close> the statements after the
  macro.
\<close>

definition TEST_prog :: "'w prog \<Rightarrow> 'w prog \<Rightarrow> 'w prog \<Rightarrow> 'w prog" where
  "TEST_prog expr on_fail next =
     Check (then_prog expr (\<lambda>v. if v \<noteq> 0 then next else on_fail)) on_fail"

text \<open>The tree of \<open>test_function es cleanup\<close>.\<close>

fun test_prog :: "'w expr list \<Rightarrow> ('w \<Rightarrow> 'w) \<Rightarrow> 'w prog" where
  "test_prog [] cleanup = Act cleanup (\<lambda>w. Return 0)"
| "test_prog (e # es) cleanup =
     TEST_prog (Act (\<lambda>w. snd (e w)) (\<lambda>w. Return (if fst (e w) then 1 else 0)))
       (Act cleanup (\<lambda>w. Return (- 1)))
       (test_prog es cleanup)"

text \<open>
  \<open>propagates I p d w\<close>: run from the world \<open>w\<close> with every call of
  \<^verbatim>\<open>toaster_check\<close> failing, \<open>p\<close> makes at most \<open>d\<close> such calls, returns a non-zero
  value and leaves a world in \<open>I\<close>, whatever \<^verbatim>\<open>toaster_get\<close> reads; it calls neither
  \<^verbatim>\<open>toaster_set\<close> nor \<^verbatim>\<open>toaster_end\<close>.
\<close>

primrec propagates :: "('w \<Rightarrow> bool) \<Rightarrow> 'w prog \<Rightarrow> nat \<Rightarrow> 'w \<Rightarrow> bool" where
  "propagates I (Return v) d w = (v \<noteq> 0 \<and> I w)"
| "propagates I (Act u c) d w = propagates I (c w) d (u w)"
| "propagates I (Check a b) d w = (case d of 0 \<Rightarrow> False | Suc d' \<Rightarrow> propagates I b d' w)"
| "propagates I (Get c) d w = (\<forall>v. propagates I (c v) d w)"
| "propagates I (Arm n p) d w = False"
| "propagates I (End p) d w = False"

text \<open>
  \<open>checkpoints I p k w\<close>: run from the world \<open>w\<close> with every call of
  \<^verbatim>\<open>toaster_check\<close> passing, \<open>p\<close> makes exactly \<open>k\<close> such calls, returns 0 and leaves
  a world in \<open>I\<close>; and at each of the \<open>k\<close> calls, had it failed there, \<open>p\<close> would have
  propagated the failure: what follows the failed call returns a non-zero value and
  leaves a world in \<open>I\<close>, after fewer than \<open>2^31\<close> further calls of \<^verbatim>\<open>toaster_check\<close>.
  All of this whatever \<^verbatim>\<open>toaster_get\<close> reads, and \<open>p\<close> calls neither \<^verbatim>\<open>toaster_set\<close>
  nor \<^verbatim>\<open>toaster_end\<close>. \<open>I\<close> is what the function relies on when it is called and
  restores on every exit, its cleanup.
\<close>

primrec checkpoints :: "('w \<Rightarrow> bool) \<Rightarrow> 'w prog \<Rightarrow> nat \<Rightarrow> 'w \<Rightarrow> bool" where
  "checkpoints I (Return v) k w = (k = 0 \<and> v = 0 \<and> I w)"
| "checkpoints I (Act u c) k w = checkpoints I (c w) k (u w)"
| "checkpoints I (Check a b) k w =
     (case k of 0 \<Rightarrow> False
      | Suc k' \<Rightarrow> checkpoints I a k' w \<and> propagates I b 2147483647 w)"
| "checkpoints I (Get c) k w = (\<forall>v. checkpoints I (c v) k w)"
| "checkpoints I (Arm n p) k w = False"
| "checkpoints I (End p) k w = False"










section \<open>Consecutive calls of toaster_check\<close>

text \<open>Subtracting a count from a C int gives the mathematical difference while that fits.\<close>

lemma sint_sub_nat:
  fixes c :: int32
  assumes "- (2 ^ 31) \<le> sint c - int j" "sint c - int j < 2 ^ 31"
  shows "sint (c - of_nat j) = sint c - int j"
proof -
  have "c - of_nat j = word_of_int (sint c - int j)" by simp
  then have "sint (c - of_nat j) = signed_take_bit 31 (sint c - int j)"
    by (simp only: sint_sbintrunc') simp
  also have "\<dots> = sint c - int j"
    using assms by (intro signed_take_bit_int_eq_self) simp_all
  finally show ?thesis .
qed

text \<open>
  While \<^verbatim>\<open>gset\<close> is not 0, the call number \<open>j + 1\<close> returns -1 exactly when the
  counter, decremented \<open>j + 1\<close> times with wrap-around, reads negative.
\<close>

lemma toaster_checks_armed:
  "gset s \<noteq> 0 \<Longrightarrow>
   toaster_checks k s =
     (map (\<lambda>j. if sint (gcnt s - of_nat (Suc j)) < 0 then - 1 else 0) [0..<k],
      s\<lparr>gcnt := gcnt s - of_nat k\<rparr>)"
proof (induction k arbitrary: s)
  case 0
  then show ?case by simp
next
  case (Suc k)
  let ?s1 = "s\<lparr>gcnt := gcnt s - 1\<rparr>"
  have c: "toaster_check s = ((if sint (gcnt s - 1) < 0 then - 1 else 0), ?s1)"
    using Suc.prems by (simp add: toaster_check_def Let_def)
  have g: "gset ?s1 \<noteq> 0" using Suc.prems by simp
  have m: "map (\<lambda>j. if sint (gcnt s - of_nat (Suc j)) < 0 then - 1 else (0::int32)) [0..<Suc k]
      = (if sint (gcnt s - 1) < 0 then - 1 else 0)
        # map (\<lambda>j. if sint (gcnt ?s1 - of_nat (Suc j)) < 0 then - 1 else 0) [0..<k]"
    by (simp only: upt_conv_Cons [of 0 "Suc k"] map_Suc_upt [symmetric])
       (simp add: comp_def algebra_simps)
  have ih: "toaster_checks k ?s1 =
      (map (\<lambda>j. if sint (gcnt ?s1 - of_nat (Suc j)) < 0 then - 1 else 0) [0..<k],
       ?s1\<lparr>gcnt := gcnt ?s1 - of_nat k\<rparr>)"
    by (rule Suc.IH [OF g])
  have "toaster_checks (Suc k) s =
      ((if sint (gcnt s - 1) < 0 then - 1 else 0)
         # map (\<lambda>j. if sint (gcnt ?s1 - of_nat (Suc j)) < 0 then - 1 else 0) [0..<k],
       ?s1\<lparr>gcnt := gcnt ?s1 - of_nat k\<rparr>)"
    by (simp only: toaster_checks.simps c ih prod.case)
  also have "?s1\<lparr>gcnt := gcnt ?s1 - of_nat k\<rparr> = s\<lparr>gcnt := gcnt s - of_nat (Suc k)\<rparr>"
    by (simp add: algebra_simps)
  finally show ?case by (simp only: m)
qed

lemma toaster_checks_armed_nth:
  "gset s \<noteq> 0 \<Longrightarrow> j < k \<Longrightarrow>
   fst (toaster_checks k s) ! j = (if sint (gcnt s - of_nat (Suc j)) < 0 then - 1 else 0)"
  by (simp add: toaster_checks_armed del: of_nat_Suc)

lemma toaster_checks_disarmed:
  "gset s = 0 \<Longrightarrow> toaster_checks k s = (replicate k 0, s)"
  by (induction k) (simp_all add: toaster_check_def)

lemma toaster_checks_nonnegative:
  assumes "gset s \<noteq> 0" "0 \<le> sint (gcnt s)" "m \<le> 2 ^ 31"
  shows "fst (toaster_checks (nat (sint (gcnt s)) + m) s)
           = replicate (nat (sint (gcnt s))) 0 @ replicate m (- 1)"
proof (rule nth_equalityI)
  let ?n = "gcnt s"
  have len: "length (fst (toaster_checks (nat (sint ?n) + m) s)) = nat (sint ?n) + m"
    by (simp add: toaster_checks_armed [OF assms(1)])
  show "length (fst (toaster_checks (nat (sint ?n) + m) s))
          = length (replicate (nat (sint ?n)) 0 @ replicate m (- 1 :: int32))"
    by (simp add: len)
  fix j
  assume "j < length (fst (toaster_checks (nat (sint ?n) + m) s))"
  then have j: "j < nat (sint ?n) + m" by (simp only: len)
  have lt: "sint ?n < 2 ^ 31" using sint_lt [of ?n] by simp
  have "sint (?n - of_nat (Suc j)) = sint ?n - int (Suc j)"
    using j assms(2,3) lt by (intro sint_sub_nat) simp_all
  then have "fst (toaster_checks (nat (sint ?n) + m) s) ! j
               = (if sint ?n - int (Suc j) < 0 then - 1 else 0)"
    by (simp only: toaster_checks_armed_nth [OF assms(1) j])
  also have "\<dots> = (replicate (nat (sint ?n)) 0 @ replicate m (- 1)) ! j"
    using j by (auto simp add: nth_append)
  finally show "fst (toaster_checks (nat (sint ?n) + m) s) ! j
                  = (replicate (nat (sint ?n)) 0 @ replicate m (- 1)) ! j" .
qed

lemma toaster_checks_negative:
  assumes "gset s \<noteq> 0" "sint (gcnt s) < 0" "int k \<le> 2 ^ 31 + sint (gcnt s)"
  shows "fst (toaster_checks k s) = replicate k (- 1)"
proof (rule nth_equalityI)
  have len: "length (fst (toaster_checks k s)) = k"
    by (simp add: toaster_checks_armed [OF assms(1)])
  show "length (fst (toaster_checks k s)) = length (replicate k (- 1 :: int32))"
    by (simp add: len)
  fix j
  assume "j < length (fst (toaster_checks k s))"
  then have j: "j < k" by (simp only: len)
  have "sint (gcnt s - of_nat (Suc j)) = sint (gcnt s) - int (Suc j)"
    using j assms(2,3) by (intro sint_sub_nat) simp_all
  then have "fst (toaster_checks k s) ! j = (if sint (gcnt s) - int (Suc j) < 0 then - 1 else 0)"
    by (simp only: toaster_checks_armed_nth [OF assms(1) j])
  then show "fst (toaster_checks k s) ! j = replicate k (- 1) ! j"
    using j assms(2) by simp
qed

text \<open>
  Claim C1, as the code has it. After \<^verbatim>\<open>toaster_set(n)\<close> with \<open>n \<ge> 0\<close>, the first \<open>n\<close>
  calls of \<^verbatim>\<open>toaster_check\<close> return 0, the call \<open>n + 1\<close> returns -1, and so does every
  call up to the call \<open>n + 2^31\<close>: \<open>m\<close> is the number of calls after the first \<open>n\<close>,
  and it may be anything up to \<open>2^31\<close>.
\<close>

theorem toaster_set_then_checks:
  assumes "0 \<le> sint n" "m \<le> 2 ^ 31"
  shows "fst (toaster_checks (nat (sint n) + m) (toaster_set n s))
           = replicate (nat (sint n)) 0 @ replicate m (- 1)"
  using toaster_checks_nonnegative [of "toaster_set n s" m] assms
  by (simp add: toaster_set_def)

text \<open>Witness for C1: budget 2, five calls.\<close>

theorem toaster_set_then_checks_witness:
  "0 \<le> sint (2::int32) \<and> (3::nat) \<le> 2 ^ 31 \<and>
   fst (toaster_checks (nat (sint (2::int32)) + 3) (toaster_set 2 init_state))
     = [0, 0, - 1, - 1, - 1]"
proof -
  have r: "replicate 2 0 @ replicate 3 (- 1) = [0, 0, - 1, - 1, - 1 :: int32]"
    by (simp add: numeral_2_eq_2 numeral_3_eq_3)
  show ?thesis using toaster_set_then_checks [of 2 3 init_state] by (simp add: r)
qed

text \<open>
  Counterexample to C1 as stated ("every further call also returns fail"): after
  \<^verbatim>\<open>toaster_set(1)\<close>, call 1 passes, calls 2 to \<open>2^31 + 1\<close> fail and bring the counter
  to the least int; the decrement of call \<open>2^31 + 2\<close> (index 2147483649 from 0) wraps to
  the greatest int, and that call returns 0, with no call of \<^verbatim>\<open>toaster_set\<close> or
  \<^verbatim>\<open>toaster_end\<close> in between.
\<close>

theorem toaster_set_then_checks_wraps:
  "fst (toaster_checks 2147483650 (toaster_set 1 init_state)) ! 2147483649 = 0"
  using toaster_checks_armed_nth [of "toaster_set 1 init_state" 2147483649 2147483650]
  by (simp add: toaster_set_def)

text \<open>
  Claim C6, as the code has it. While armed with the counter below 0, say at \<open>c < 0\<close>,
  each of the next \<open>2^31 + c\<close> calls of \<^verbatim>\<open>toaster_check\<close> returns -1; the counter does
  not stay where it is, every call takes 1 off it.
\<close>

theorem toaster_check_fails_while_negative:
  assumes "gset s \<noteq> 0" "sint (gcnt s) < 0" "int k \<le> 2 ^ 31 + sint (gcnt s)"
  shows "fst (toaster_checks k s) = replicate k (- 1)
         \<and> sint (gcnt (snd (toaster_checks k s))) = sint (gcnt s) - int k"
proof -
  have "sint (gcnt s - of_nat k) = sint (gcnt s) - int k"
    using assms(2,3) by (intro sint_sub_nat) simp_all
  then have "sint (gcnt (snd (toaster_checks k s))) = sint (gcnt s) - int k"
    by (simp add: toaster_checks_armed [OF assms(1)])
  then show ?thesis
    using toaster_checks_negative [OF assms] by simp
qed

text \<open>Witness for C6: the state after \<^verbatim>\<open>toaster_set(0)\<close> and one call, three further calls.\<close>

theorem toaster_check_fails_while_negative_witness:
  "gset (snd (toaster_check (toaster_set 0 init_state))) \<noteq> 0
   \<and> sint (gcnt (snd (toaster_check (toaster_set 0 init_state)))) < 0
   \<and> int 3 \<le> 2 ^ 31 + sint (gcnt (snd (toaster_check (toaster_set 0 init_state))))
   \<and> fst (toaster_checks 3 (snd (toaster_check (toaster_set 0 init_state)))) = [- 1, - 1, - 1]
   \<and> sint (gcnt (snd (toaster_checks 3 (snd (toaster_check (toaster_set 0 init_state)))))) = - 4"
proof -
  have r: "replicate 3 (- 1) = [- 1, - 1, - 1 :: int32]"
    by (simp add: numeral_3_eq_3)
  show ?thesis
    using toaster_check_fails_while_negative
            [of "snd (toaster_check (toaster_set 0 init_state))" 3]
    by (simp add: r toaster_check_def toaster_set_def init_state_def)
qed

text \<open>
  Counterexample to C6 as stated ("never wraps back to reporting success"): after
  \<^verbatim>\<open>toaster_set(0)\<close> the first call fails and leaves the counter at -1; of the calls
  that follow, with no re-arming, the one with index 2147483647 from 0 (the
  \<open>2^31\<close>-th) returns 0.
\<close>

theorem toaster_check_wraps_to_pass:
  "fst (toaster_check (toaster_set 0 init_state)) = - 1
   \<and> fst (toaster_checks 2147483648 (snd (toaster_check (toaster_set 0 init_state))))
         ! 2147483647 = 0"
  using toaster_checks_armed_nth
          [of "snd (toaster_check (toaster_set 0 init_state))" 2147483647 2147483648]
  by (simp add: toaster_check_def toaster_set_def init_state_def)

text \<open>
  Claim C7. After \<^verbatim>\<open>toaster_end\<close>, from any state, any number of calls of
  \<^verbatim>\<open>toaster_check\<close> return 0 and leave the state as it is, also when the rest of the
  world has changed in the meantime. After \<^verbatim>\<open>toaster_set(0)\<close> two calls both return -1,
  and after \<^verbatim>\<open>toaster_end\<close> the next call returns 0.
\<close>

theorem toaster_end_then_checks_pass:
  "toaster_checks k (toaster_end s) = (replicate k 0, toaster_end s)
   \<and> toaster_checks k ((toaster_end s)\<lparr>world := w\<rparr>) = (replicate k 0, (toaster_end s)\<lparr>world := w\<rparr>)
   \<and> fst (toaster_checks 2 (toaster_set 0 s)) = [- 1, - 1]
   \<and> fst (toaster_check (toaster_end (snd (toaster_checks 2 (toaster_set 0 s))))) = 0"
proof -
  have a: "toaster_checks k (toaster_end s) = (replicate k 0, toaster_end s)"
    by (rule toaster_checks_disarmed) (simp add: toaster_end_def)
  have a': "toaster_checks k ((toaster_end s)\<lparr>world := w\<rparr>)
              = (replicate k 0, (toaster_end s)\<lparr>world := w\<rparr>)"
    by (rule toaster_checks_disarmed) (simp add: toaster_end_def)
  have b: "fst (toaster_checks 2 (toaster_set 0 s)) = [- 1, - 1]"
    by (simp add: numeral_2_eq_2 toaster_check_def toaster_set_def)
  have c: "fst (toaster_check (toaster_end t)) = 0" for t :: "'a state"
    by (simp add: toaster_check_def toaster_end_def)
  show ?thesis using a a' b c by simp
qed

text \<open>
  Claim C10, as the code has it. \<^verbatim>\<open>toaster_set(n)\<close> with \<open>n < 0\<close> arms the budget with
  \<open>n\<close>, and each of the first \<open>2^31 + n\<close> calls of \<^verbatim>\<open>toaster_check\<close> after it returns -1,
  as the same calls after \<^verbatim>\<open>toaster_set(0)\<close> do.
\<close>

theorem toaster_set_negative:
  assumes "sint n < 0" "int k \<le> 2 ^ 31 + sint n"
  shows "toaster_get (toaster_set n s) = n
         \<and> fst (toaster_checks k (toaster_set n s)) = replicate k (- 1)
         \<and> fst (toaster_checks k (toaster_set n s)) = fst (toaster_checks k (toaster_set 0 s))"
proof -
  have a: "fst (toaster_checks k (toaster_set n s)) = replicate k (- 1)"
    using assms by (intro toaster_checks_negative) (simp_all add: toaster_set_def)
  have "k \<le> 2 ^ 31" using assms by simp
  then have "fst (toaster_checks (nat (sint (gcnt (toaster_set 0 s))) + k) (toaster_set 0 s))
               = replicate (nat (sint (gcnt (toaster_set 0 s)))) 0 @ replicate k (- 1)"
    by (intro toaster_checks_nonnegative) (simp_all add: toaster_set_def)
  then have b: "fst (toaster_checks k (toaster_set 0 s)) = replicate k (- 1)"
    by (simp add: toaster_set_def)
  show ?thesis using a b by (simp add: toaster_get_def toaster_set_def)
qed

text \<open>Witness for C10: \<^verbatim>\<open>toaster_set(-5)\<close>, two calls.\<close>

theorem toaster_set_negative_witness:
  "sint (- 5 :: int32) < 0 \<and> int 2 \<le> 2 ^ 31 + sint (- 5 :: int32)
   \<and> toaster_get (toaster_set (- 5) init_state) = - 5
   \<and> fst (toaster_checks 2 (toaster_set (- 5) init_state)) = [- 1, - 1]
   \<and> fst (toaster_checks 2 (toaster_set (- 5) init_state))
       = fst (toaster_checks 2 (toaster_set 0 init_state))"
proof -
  have r: "replicate 2 (- 1) = [- 1, - 1 :: int32]"
    by (simp add: numeral_2_eq_2)
  show ?thesis
    using toaster_set_negative [of "- 5" 2 init_state] by (auto simp add: r)
qed

text \<open>
  Counterexample to C10 as stated: with \<open>n\<close> the least int, the decrement of the very
  first \<^verbatim>\<open>toaster_check\<close> after \<^verbatim>\<open>toaster_set(n)\<close> wraps to the greatest int and the
  call returns 0.
\<close>

theorem toaster_set_least_int_passes:
  "fst (toaster_check (toaster_set (- 2147483648) init_state)) = 0"
  by (simp add: toaster_check_def toaster_set_def)

section \<open>The run loop\<close>

text \<open>One evaluation of the loop condition: the loop ends, goes round once more, or never returns.\<close>

lemma run_loop_stop:
  assumes "\<not> (sint i \<le> sint mx \<and> err \<noteq> 0)"
  shows "run_loop test mx i err s tr = Some (err, s, tr)"
  by (subst run_loop.simps) (simp only: assms if_False)


lemma run_loop_no_return:
  assumes "sint i \<le> sint mx" "err \<noteq> 0" "test (toaster_set i s) = None"
  shows "run_loop test mx i err s tr = None"
  by (subst run_loop.simps) (simp add: assms)



















text \<open>
  Claim C9. For \<open>min > max\<close> and any function under test, \<^verbatim>\<open>toaster_run_range\<close> returns
  -1 with no attempt made, the rest of the state as it was and the budget disarmed.
\<close>

theorem toaster_run_range_empty:
  assumes "sint mx < sint mn"
  shows "toaster_run_range mn mx test s = Some (- 1, toaster_end s, [])
         \<and> gset (toaster_end s) = 0 \<and> toaster_get (toaster_end s) = - 1
         \<and> fst (toaster_check (toaster_end s)) = 0"
proof -
  have "run_loop test mx mn (- 1) s [] = Some (- 1, s, [])"
    using assms by (intro run_loop_stop) simp
  then show ?thesis
    by (simp add: toaster_run_range_def toaster_end_def toaster_get_def toaster_check_def)
qed

text \<open>Witness for C9: \<open>min = 1\<close>, \<open>max = 0\<close>, from a state armed with 7.\<close>

theorem toaster_run_range_empty_witness:
  "sint (0::int32) < sint (1::int32)
   \<and> toaster_run_range 1 0 check_test (toaster_set 7 init_state) = Some (- 1, init_state, [])
   \<and> gset (toaster_end (toaster_set 7 init_state)) = 0
   \<and> toaster_get (toaster_end (toaster_set 7 init_state)) = - 1"
  using toaster_run_range_empty [of 0 1 check_test "toaster_set 7 init_state"]
  by (simp add: toaster_end_def toaster_set_def init_state_def)

text \<open>
  Claim C8. \<^verbatim>\<open>toaster_run_max(max, test)\<close> is \<^verbatim>\<open>toaster_run_range(0, max, test)\<close>: the same
  value returned (or no return), the same final state and the same attempts.
\<close>

theorem toaster_run_max_is_run_range: "toaster_run_max mx test s = toaster_run_range 0 mx test s"
  by (simp add: toaster_run_max_def)

section \<open>Runs of the trees\<close>



text \<open>One call of \<^verbatim>\<open>toaster_check\<close> in a tree, and a call of a tree in a tree.\<close>

lemma exec_Check:
  assumes "toaster_check s = (r, s1)"
  shows "exec (Check a b) s =
           (fst (exec (if r = 0 then a else b) s1), fst (snd (exec (if r = 0 then a else b) s1)),
            Checked r # snd (snd (exec (if r = 0 then a else b) s1)))"
  using assms by (simp split: prod.splits)

lemma exec_then_prog:
  "exec (then_prog p k) s =
     (case exec p s of (v, s1, evs) \<Rightarrow>
        (case exec (k v) s1 of (v', s2, evs') \<Rightarrow> (v', s2, evs @ evs')))"
proof (induction p arbitrary: s)
  case (Return v)
  show ?case by (simp split: prod.splits)
next
  case (Act u c)
  show ?case by (simp add: Act.IH)
next
  case (Check a b)
  show ?case by (simp add: Check.IH split: prod.splits)
next
  case (Get c)
  show ?case by (simp add: Get.IH split: prod.splits)
next
  case (Arm n p)
  show ?case by (simp add: Arm.IH split: prod.splits)
next
  case (End p)
  show ?case by (simp add: End.IH split: prod.splits)
qed

text \<open>The tree of a sequence of \<^verbatim>\<open>TEST\<close> statements does what the sequence does.\<close>

lemma test_body_prog:
  "(case test_body es 0 s of (err, s') \<Rightarrow> (err, s'\<lparr>world := cleanup (world s')\<rparr>))
     = (fst (exec (test_prog es cleanup) s), fst (snd (exec (test_prog es cleanup) s)))"
proof (induction es arbitrary: s)
  case Nil
  show ?case by simp
next
  case (Cons e es)
  obtain r s1 where tc: "toaster_check s = (r, s1)" by (cases "toaster_check s") auto
  obtain b w where ev: "e (world s1) = (b, w)" by (cases "e (world s1)") auto
  show ?case
    using Cons.IH [of "s1\<lparr>world := w\<rparr>"]
    by (simp add: TEST_def TEST_prog_def tc ev exec_Check [OF tc] del: exec.simps(3)
          split: prod.splits)
qed

lemma test_function_prog: "test_function es cleanup = prog_test (test_prog es cleanup)"
proof
  fix s
  show "test_function es cleanup s = prog_test (test_prog es cleanup) s"
    using test_body_prog [where es = es and s = s and cleanup = cleanup]
    by (auto simp add: test_function_def prog_test_def split: prod.splits)
qed







section \<open>The sweep over a function of k checkpoints\<close>



text \<open>
  A sequence of \<^verbatim>\<open>TEST\<close> statements whose expressions hold in every world has as many
  checkpoints as statements.
\<close>

lemma test_prog_checkpoints:
  "\<forall>e\<in>set es. \<forall>w. fst (e w) \<Longrightarrow> checkpoints (\<lambda>w. True) (test_prog es cleanup) (length es) w"
  by (induction es arbitrary: w) (simp_all add: TEST_prog_def)





end
